theory Spec2Isabelle
  imports Main
begin

section \<open>Data model of couchbase.go\<close>

text \<open>
  The Go structs \<open>Node\<close>, \<open>Cluster\<close> and \<open>Couchbase\<close> with the fields of the source.
  Go strings are byte sequences, here \<open>string\<close>; Go's \<open>int\<close> fields are never computed
  with in this file and are kept as \<open>int\<close>. The pointer fields \<open>info\<close> and \<open>cluster\<close> of
  the client handle are \<open>nil\<close> or point to a value: an \<open>option\<close>.
\<close>

record Node =
  Uptime :: string
  CouchApiBase :: string
  ClusterMembership :: string
  ClusterCompatibility :: int
  Status :: string
  ThisNode :: bool
  Hostname :: string
  Version :: string
  OS :: string
  Services :: "string list"
  IndexMemoryQuota :: int
  MemoryQuota :: int
  RebalanceStatus :: string
  OTPCookie :: string
  OTPNode :: string

record Cluster =
  IsAdminCreds :: bool
  IsEnterprise :: bool
  UUID :: string

record Couchbase =
  URL :: string
  Username :: string
  Password :: string
  info :: "Node option"
  cluster :: "Cluster option"

text \<open>The zero value of \<open>Node\<close>, as Go's \<open>Node{}\<close>.\<close>

definition zeroNode :: Node where
  "zeroNode = \<lparr> Uptime = [], CouchApiBase = [], ClusterMembership = [],
     ClusterCompatibility = 0, Status = [], ThisNode = False, Hostname = [], Version = [],
     OS = [], Services = [], IndexMemoryQuota = 0, MemoryQuota = 0, RebalanceStatus = [],
     OTPCookie = [], OTPNode = [] \<rparr>"

text \<open>
  Errors are values. Each \<open>fmt.Errorf\<close> site of the source is one constructor (the
  formatted arguments are its fields); \<open>External\<close> stands for the errors handed up by the
  collaborators outside the file (HTTP client, body reader, JSON decoder, the
  rebalance-status read).
\<close>

datatype error =
    External string
  | ErrConnectingWithAuth error
  | ErrAuthenticating
  | ErrConnecting error
  | ErrorNodeUninitialized
  | ErrStatusCodeRead "int list" int error
  | ErrStatusCodeBody "int list" int string
  | ErrNoNodeInfo
  | ErrNoOTPName Node
  | ErrNotPartOfCluster
  | ErrNotJoined
  | ErrNodeStatus string string
  | ErrorWaitNodeTimeout string
  | ErrorHealthyTimedOut string

section \<open>Host matching\<close>

text \<open>
  \<open>strings.Split(s, sep)\<close> of Go's standard library, for a separator of one byte: the
  substrings between the separators, in order; never empty (\<open>Split("", ":")\<close> is
  \<open>[""]\<close>).
\<close>

fun Split :: "string \<Rightarrow> char \<Rightarrow> string list" where
  "Split [] sep = [[]]"
| "Split (c # s) sep =
     (if c = sep then [] # Split s sep
      else (case Split s sep of [] \<Rightarrow> [[c]] | p # ps \<Rightarrow> (c # p) # ps))"

text \<open>\<open>stripPort\<close>: \<open>strings.Split(str, ":")[0]\<close>. The index is in range by \<open>Split_not_Nil\<close>.\<close>

definition stripPort :: "string \<Rightarrow> string" where
  "stripPort str = Split str (CHR '':'') ! 0"

text \<open>\<open>strSliceContains\<close>: the loop returns at the first element that matches.\<close>

fun strSliceContains :: "string list \<Rightarrow> string \<Rightarrow> bool" where
  "strSliceContains [] item = False"
| "strSliceContains (elem # slice) item =
     (if stripPort item = stripPort elem then True else strSliceContains slice item)"

section \<open>Identity resolution\<close>

text \<open>
  The loop of \<open>GetOTPNodes\<close> over the nodes read, with the named results \<open>outEjectNodes\<close>
  and \<open>outAllNodes\<close> as accumulators. On a node without OTP name the source sets \<open>err\<close>
  and returns with a bare \<open>return\<close>: the lists built so far go back beside the error.
\<close>

fun otpLoop :: "string list \<Rightarrow> Node list \<Rightarrow> string list \<Rightarrow> string list \<Rightarrow>
    string list \<times> string list \<times> error option" where
  "otpLoop ejectNodes [] outEjectNodes outAllNodes = (outEjectNodes, outAllNodes, None)"
| "otpLoop ejectNodes (node # nodes) outEjectNodes outAllNodes =
     (if OTPNode node = [] then (outEjectNodes, outAllNodes, Some (ErrNoOTPName node))
      else otpLoop ejectNodes nodes
             (if strSliceContains ejectNodes (Hostname node)
              then outEjectNodes @ [OTPNode node] else outEjectNodes)
             (outAllNodes @ [OTPNode node]))"

text \<open>
  \<open>GetOTPNodes\<close>. The last argument is what the call \<open>c.Nodes()\<close> returns. The result is
  Go's five results in order: \<open>outEjectNodes, outFailoverNodes, outReAddNodes, outAllNodes,
  err\<close> (a nil slice is \<open>[]\<close>, a nil error \<open>None\<close>).
\<close>

definition GetOTPNodes :: "string list \<Rightarrow> string list \<Rightarrow> string list \<Rightarrow> error + Node list \<Rightarrow>
    string list \<times> string list \<times> string list \<times> string list \<times> error option" where
  "GetOTPNodes ejectNodes failoverNode reAddNode nodesResult =
     (case nodesResult of
        Inl err \<Rightarrow> ([], [], [], [], Some err)
      | Inr nodes \<Rightarrow>
          (case otpLoop ejectNodes nodes [] [] of
             (outEjectNodes, outAllNodes, err) \<Rightarrow> (outEjectNodes, [], [], outAllNodes, err)))"

section \<open>HTTP plumbing\<close>

text \<open>
  What the client sees of an HTTP response: the status code and what reading the body
  gives (\<open>ioutil.ReadAll\<close>). The argument \<open>sent\<close> of the functions below is the result
  of the transport call \<open>c.request\<close>.
\<close>

record Response =
  StatusCode :: int
  Body :: "error + string"

definition Request :: "error + Response \<Rightarrow> error + Response" where
  "Request sent =
     (case sent of
        Inl err \<Rightarrow> Inl (ErrConnectingWithAuth err)
      | Inr resp \<Rightarrow> if StatusCode resp = 401 then Inl ErrAuthenticating else Inr resp)"

definition CheckStatusCode :: "Response \<Rightarrow> int list \<Rightarrow> error option" where
  "CheckStatusCode resp validStatusCodes =
     (if StatusCode resp \<in> set validStatusCodes then None
      else (case Body resp of
              Inl err \<Rightarrow> Some (ErrStatusCodeRead validStatusCodes (StatusCode resp) err)
            | Inr body \<Rightarrow> Some (ErrStatusCodeBody validStatusCodes (StatusCode resp) body)))"

text \<open>
  \<open>Nodes\<close>: the topology read. \<open>decodePool\<close> is \<open>json.Unmarshal\<close> into a \<open>Pool\<close> followed
  by the selection of its \<open>Nodes\<close> field.
\<close>

definition Nodes :: "(string \<Rightarrow> error + Node list) \<Rightarrow> error + Response \<Rightarrow> error + Node list" where
  "Nodes decodePool sent =
     (case Request sent of
        Inl err \<Rightarrow> Inl (ErrConnecting err)
      | Inr resp \<Rightarrow>
          if StatusCode resp = 404 then Inl ErrorNodeUninitialized
          else (case CheckStatusCode resp [200] of
                  Some err \<Rightarrow> Inl err
                | None \<Rightarrow> (case Body resp of Inl err \<Rightarrow> Inl err | Inr body \<Rightarrow> decodePool body)))"

text \<open>\<open>Rebalance\<close>: the trigger; the two handle lists only go into the form data.\<close>

definition Rebalance :: "string list \<Rightarrow> string list \<Rightarrow> error + Response \<Rightarrow> error option" where
  "Rebalance knownNodes ejectedNodes sent =
     (case Request sent of Inl err \<Rightarrow> Some err | Inr resp \<Rightarrow> CheckStatusCode resp [200])"

section \<open>Effects\<close>

text \<open>
  What a run does to the outside, in order: sleeps (a \<open>time.Duration\<close>, in nanoseconds),
  the remote calls and the log lines that matter. A function that acts on the outside
  returns its list of effects beside its result.
\<close>

datatype effect =
    TimeSleep int
  | CallRequest string string
  | CallNodes
  | CallRebalance "string list" "string list"
  | CallRebalanceStatus
  | LogWarn
  | LogInfo
  | LogFatal

section \<open>Self node, health and the caches\<close>

fun getInfo :: "Node list \<Rightarrow> error + Node" where
  "getInfo [] = Inl ErrNoNodeInfo"
| "getInfo (node # nodes) = (if ThisNode node then Inr node else getInfo nodes)"

text \<open>\<open>healthy\<close>, given what its call of \<open>c.Nodes()\<close> returns; \<open>None\<close> is the nil error.\<close>

definition healthy :: "error + Node list \<Rightarrow> error option" where
  "healthy nodesResult =
     (case nodesResult of
        Inl err \<Rightarrow> Some err
      | Inr nodes \<Rightarrow>
          if length nodes < 2 then Some ErrNotJoined
          else (case getInfo nodes of
                  Inl err \<Rightarrow> Some err
                | Inr self \<Rightarrow>
                    if Status self \<noteq> ''healthy''
                    then Some (ErrNodeStatus (Status self) ''healthy'') else None))"

text \<open>
  \<open>Info\<close> and \<open>Cluster\<close> read and write the handle: they return the result, the handle
  after the call and the effects. \<open>nodesResult\<close> is what \<open>c.Nodes()\<close> would return and
  \<open>sent\<close> what the transport would return, if the call is made.
\<close>

definition Info :: "Couchbase \<Rightarrow> error + Node list \<Rightarrow> (error + Node) \<times> Couchbase \<times> effect list" where
  "Info c nodesResult =
     (case info c of
        Some cached \<Rightarrow> (Inr cached, c, [])
      | None \<Rightarrow>
          (case nodesResult of
             Inl err \<Rightarrow> (Inl err, c, [CallNodes])
           | Inr nodes \<Rightarrow>
               (case getInfo nodes of
                  Inl err \<Rightarrow> (Inl err, c, [CallNodes])
                | Inr found \<Rightarrow> (Inr found, c\<lparr>info := Some found\<rparr>, [CallNodes]))))"

definition Cluster :: "(string \<Rightarrow> error + Cluster) \<Rightarrow> Couchbase \<Rightarrow> error + Response \<Rightarrow>
    (error + Cluster) \<times> Couchbase \<times> effect list" where
  "Cluster decodeCluster c sent =
     (case cluster c of
        Some cached \<Rightarrow> (Inr cached, c, [])
      | None \<Rightarrow>
          (case Request sent of
             Inl err \<Rightarrow> (Inl (ErrConnecting err), c, [CallRequest ''GET'' ''/pools''])
           | Inr resp \<Rightarrow>
               (case CheckStatusCode resp [200] of
                  Some err \<Rightarrow> (Inl err, c, [CallRequest ''GET'' ''/pools''])
                | None \<Rightarrow>
                    (case Body resp of
                       Inl err \<Rightarrow> (Inl err, c, [CallRequest ''GET'' ''/pools''])
                     | Inr body \<Rightarrow>
                         (case decodeCluster body of
                            Inl err \<Rightarrow> (Inl err, c, [CallRequest ''GET'' ''/pools''])
                          | Inr parsed \<Rightarrow>
                              (Inr parsed, c\<lparr>cluster := Some parsed\<rparr>,
                               [CallRequest ''GET'' ''/pools'']))))))"

section \<open>Node removal\<close>

text \<open>
  Modelled from the spec: the type of the value that \<open>c.RebalanceStatus()\<close> returns is
  declared outside the file. \<open>RemoveNodes\<close> reads two fields of it: the recommended
  refresh period (a \<open>float64\<close>, in seconds) and the handles of the nodes still taking
  part in the rebalance (\<open>status.Nodes\<close>, here \<open>StatusNodes\<close>: \<open>Nodes\<close> is the topology
  read). The float type is the parameter \<open>'f\<close>, and the conversion
  \<open>time.Duration(int64(period * float64(time.Second)))\<close> the parameter \<open>toDuration\<close>
  of the loop: the results below hold for every conversion.
\<close>

record 'f RebalanceProgress =
  RecommendedRefreshPeriod :: 'f
  StatusNodes :: "string list"

text \<open>
  One round of the polling loop reads the rebalance status and, when it gets that far,
  the topology. A \<open>poll\<close> is what the remote side answers in one round.
\<close>

record 'f poll =
  statusAnswer :: "error + 'f RebalanceProgress"
  nodesAnswer :: "error + Node list"

text \<open>\<open>time.Duration\<close> counts nanoseconds.\<close>

definition Millisecond :: int where
  "Millisecond = 1000000"

definition Second :: int where
  "Second = 1000 * Millisecond"

definition minSleep :: int where
  "minSleep = Second * 2"

text \<open>The two flag loops of the round: the flag is set when an element matches.\<close>

definition nodeInRebalance :: "string list \<Rightarrow> string list \<Rightarrow> bool" where
  "nodeInRebalance ejectNodes statusNodes =
     foldl (\<lambda>flag node. if strSliceContains statusNodes node then True else flag)
       False ejectNodes"

definition nodeInCluster :: "string list \<Rightarrow> Node list \<Rightarrow> bool" where
  "nodeInCluster ejectNodes nodes =
     foldl (\<lambda>flag node. if strSliceContains ejectNodes (OTPNode node) then True else flag)
       False nodes"

text \<open>
  How the loop ends: \<open>Done\<close> after "rebalance finished" (the function then returns nil),
  \<open>StuckRemoval\<close> at \<open>c.Log().Fatalf\<close>, which logs and ends the process.
\<close>

datatype outcome = Done | StuckRemoval

text \<open>
  The body of the \<open>for\<close> loop, from the local variables \<open>sleep\<close> and
  \<open>nodeInClusterCount\<close> (never negative and never above 11: a \<open>nat\<close>) and the answers
  of the round. \<open>Inr\<close> is \<open>continue\<close> with the new values of the two variables, \<open>Inl\<close>
  is \<open>break\<close>.
\<close>

definition pollStep :: "('f \<Rightarrow> int) \<Rightarrow> string list \<Rightarrow> int \<Rightarrow> nat \<Rightarrow> 'f poll \<Rightarrow>
    effect list \<times> (outcome + int \<times> nat)" where
  "pollStep toDuration ejectNodes sleep nodeInClusterCount p =
     (case statusAnswer p of
        Inl err \<Rightarrow>
          ([TimeSleep sleep, CallRebalanceStatus, LogWarn],
           Inr (500 * Millisecond, nodeInClusterCount))
      | Inr status \<Rightarrow>
          (let sleep1 = toDuration (RecommendedRefreshPeriod status);
               sleep2 = (if sleep1 < minSleep then minSleep else sleep1)
           in if nodeInRebalance ejectNodes (StatusNodes status)
              then ([TimeSleep sleep, CallRebalanceStatus], Inr (sleep2, 0))
              else (case nodesAnswer p of
                      Inl err \<Rightarrow>
                        ([TimeSleep sleep, CallRebalanceStatus, CallNodes, LogWarn],
                         Inr (sleep2, nodeInClusterCount))
                    | Inr nodes \<Rightarrow>
                        if nodeInCluster ejectNodes nodes
                        then (if nodeInClusterCount > 10
                              then ([TimeSleep sleep, CallRebalanceStatus, CallNodes, LogFatal],
                                    Inl StuckRemoval)
                              else ([TimeSleep sleep, CallRebalanceStatus, CallNodes],
                                    Inr (sleep2, nodeInClusterCount + 1)))
                        else ([TimeSleep sleep, CallRebalanceStatus, CallNodes, LogInfo],
                              Inl Done))))"

text \<open>
  The loop over the rounds the remote side answers. It has no bound of its own: when
  the answers run out before a \<open>break\<close>, the loop is still polling, which is \<open>None\<close>.
\<close>

fun pollLoop :: "('f \<Rightarrow> int) \<Rightarrow> string list \<Rightarrow> int \<Rightarrow> nat \<Rightarrow> 'f poll list \<Rightarrow>
    effect list \<times> outcome option" where
  "pollLoop toDuration ejectNodes sleep nodeInClusterCount [] = ([], None)"
| "pollLoop toDuration ejectNodes sleep nodeInClusterCount (p # polls) =
     (case pollStep toDuration ejectNodes sleep nodeInClusterCount p of
        (effects, Inl out) \<Rightarrow> (effects, Some out)
      | (effects, Inr (sleep', count')) \<Rightarrow>
          (case pollLoop toDuration ejectNodes sleep' count' polls of
             (later, out) \<Rightarrow> (effects @ later, out)))"

text \<open>
  \<open>RemoveNodes\<close>, given what \<open>c.Nodes()\<close> returns inside \<open>GetOTPNodes\<close>, what
  \<open>c.Rebalance\<close> returns and the answers to the polling rounds. The result: \<open>Some (Inl
  err)\<close> when the function returns the error, \<open>Some (Inr out)\<close> when the loop ends with
  \<open>out\<close>, \<open>None\<close> while it is still polling.
\<close>

definition RemoveNodes :: "('f \<Rightarrow> int) \<Rightarrow> string list \<Rightarrow> error + Node list \<Rightarrow> error option \<Rightarrow>
    'f poll list \<Rightarrow> effect list \<times> (error + outcome) option" where
  "RemoveNodes toDuration removeNodes nodesRead rebalanceResult polls =
     (case GetOTPNodes removeNodes [] [] nodesRead of
        (ejectNodes, outFailoverNodes, outReAddNodes, allNodes, err) \<Rightarrow>
          (case err of
             Some e \<Rightarrow> ([CallNodes], Some (Inl e))
           | None \<Rightarrow>
               if length ejectNodes \<noteq> length removeNodes
               then ([CallNodes], Some (Inl ErrNotPartOfCluster))
               else (case rebalanceResult of
                       Some e \<Rightarrow> ([CallNodes, CallRebalance allNodes ejectNodes], Some (Inl e))
                     | None \<Rightarrow>
                         (case pollLoop toDuration ejectNodes 0 0 polls of
                            (effects, out) \<Rightarrow>
                              ([CallNodes, CallRebalance allNodes ejectNodes] @ effects,
                               map_option Inr out)))))"

section \<open>Calls on one client handle\<close>

text \<open>
  A caller that uses one handle for a sequence of \<open>Info()\<close> and \<open>Cluster()\<close> calls. Each
  request carries what the remote side would answer if the call reads; each reply is
  the result of the call with the effects it had. The handle is threaded through.
\<close>

datatype request = AskInfo "error + Node list" | AskCluster "error + Response"

datatype reply = InfoReply "error + Node" | ClusterReply "error + Cluster"

fun handleCalls :: "(string \<Rightarrow> error + Cluster) \<Rightarrow> Couchbase \<Rightarrow> request list \<Rightarrow>
    (reply \<times> effect list) list \<times> Couchbase" where
  "handleCalls decodeCluster c [] = ([], c)"
| "handleCalls decodeCluster c (AskInfo nodesRead # requests) =
     (case Info c nodesRead of
        (result, c', effects) \<Rightarrow>
          (case handleCalls decodeCluster c' requests of
             (replies, c'') \<Rightarrow> ((InfoReply result, effects) # replies, c'')))"
| "handleCalls decodeCluster c (AskCluster sent # requests) =
     (case Cluster decodeCluster c sent of
        (result, c', effects) \<Rightarrow>
          (case handleCalls decodeCluster c' requests of
             (replies, c'') \<Rightarrow> ((ClusterReply result, effects) # replies, c'')))"

section \<open>Waiting for a node\<close>

text \<open>
  \<open>IsReady\<close> and \<open>Healthy\<close> share one loop: a \<open>select\<close> between \<open>time.After(timeout)\<close>
  and the channel of \<open>time.Tick(1 * time.Second)\<close>, with a probe after each tick. Time is
  a logical clock in nanoseconds since the call started. What the Go runtime does is
  written out as follows.
  \<^item> The ticker fires at every multiple of a second and keeps at most one tick for a
    slow receiver; \<open>nextTick\<close> is the first firing after the last tick was received.
  \<^item> The channel operand \<open>time.After(timeout)\<close> is evaluated on entering the \<open>select\<close>,
    that is in every round of the \<open>for\<close> loop: the timer of a round fires \<open>timeout\<close>
    after the round began (at once when \<open>timeout\<close> is not positive).
  \<^item> The \<open>select\<close> takes the case that is ready first; when both are ready at the same
    instant the runtime chooses, which is the parameter \<open>timerWinsTie\<close>.
  An \<open>attempt\<close> is what a probe meets: how long the probe takes and what the remote
  side answers. When the attempts run out before the call returns, it is still waiting.
\<close>

record 'a attempt =
  took :: int
  answer :: 'a

datatype select_end = TimedOut int | Succeeded int | StillWaiting int

fun selectLoop :: "('a \<Rightarrow> bool) \<Rightarrow> int \<Rightarrow> bool \<Rightarrow> int \<Rightarrow> int \<Rightarrow> 'a attempt list \<Rightarrow> select_end" where
  "selectLoop succeeds timeout timerWinsTie now nextTick [] =
     (let deadline = now + max 0 timeout; tickAt = max now nextTick
      in if deadline < tickAt \<or> (deadline = tickAt \<and> timerWinsTie) then TimedOut deadline
         else StillWaiting now)"
| "selectLoop succeeds timeout timerWinsTie now nextTick (a # attempts) =
     (let deadline = now + max 0 timeout; tickAt = max now nextTick
      in if deadline < tickAt \<or> (deadline = tickAt \<and> timerWinsTie) then TimedOut deadline
         else if succeeds (answer a) then Succeeded (tickAt + took a)
         else selectLoop succeeds timeout timerWinsTie (tickAt + took a)
                (Second * (tickAt div Second + 1)) attempts)"

text \<open>\<open>Ping\<close>, from the result of \<open>requestUrl\<close>.\<close>

definition Ping :: "error + Response \<Rightarrow> error option" where
  "Ping sent = (case sent of Inl err \<Rightarrow> Some err | Inr resp \<Rightarrow> CheckStatusCode resp [200])"

text \<open>
  A call that returns does so at a time and with its results; \<open>RunningAt\<close> is a call
  that has not returned when the attempts run out.
\<close>

datatype 'r timed_run = ReturnsAt int 'r | RunningAt int

definition IsReady :: "string \<Rightarrow> int \<Rightarrow> bool \<Rightarrow> (error + Response) attempt list \<Rightarrow>
    (bool \<times> error option) timed_run" where
  "IsReady rawURL timeout timerWinsTie pings =
     (case selectLoop (\<lambda>sent. Ping sent = None) timeout timerWinsTie 0 Second pings of
        TimedOut at \<Rightarrow> ReturnsAt at (False, Some (ErrorWaitNodeTimeout rawURL))
      | Succeeded at \<Rightarrow> ReturnsAt at (True, None)
      | StillWaiting at \<Rightarrow> RunningAt at)"

definition Healthy :: "Couchbase \<Rightarrow> int \<Rightarrow> bool \<Rightarrow> (error + Node list) attempt list \<Rightarrow>
    error option timed_run" where
  "Healthy c timeout timerWinsTie reads =
     (case selectLoop (\<lambda>nodesRead. healthy nodesRead = None) timeout timerWinsTie 0 Second reads of
        TimedOut at \<Rightarrow> ReturnsAt at (Some (ErrorHealthyTimedOut (URL c)))
      | Succeeded at \<Rightarrow> ReturnsAt at None
      | StillWaiting at \<Rightarrow> RunningAt at)"

section \<open>What a round of the removal loop observes\<close>

text \<open>
  The notions the statements about the loop are phrased in, read off the answers of a
  round. \<open>stillActive\<close>: the status read succeeded and names an ejected handle among the
  nodes still rebalancing. \<open>stillPresent\<close>: the status read succeeded and names no ejected
  handle, and the topology read succeeded and still holds an ejected handle.
\<close>

definition stillActive :: "string list \<Rightarrow> 'f poll \<Rightarrow> bool" where
  "stillActive ejectNodes p =
     (case statusAnswer p of
        Inl err \<Rightarrow> False
      | Inr status \<Rightarrow> nodeInRebalance ejectNodes (StatusNodes status))"

definition stillPresent :: "string list \<Rightarrow> 'f poll \<Rightarrow> bool" where
  "stillPresent ejectNodes p =
     (case statusAnswer p of
        Inl err \<Rightarrow> False
      | Inr status \<Rightarrow>
          \<not> nodeInRebalance ejectNodes (StatusNodes status) \<and>
          (case nodesAnswer p of Inl err \<Rightarrow> False | Inr nodes \<Rightarrow> nodeInCluster ejectNodes nodes))"

text \<open>
  The number of \<open>stillPresent\<close> rounds in a row at the end of a sequence of rounds: a
  \<open>stillActive\<close> round starts the count again at zero, a round whose status read or
  topology read failed neither counts nor resets.
\<close>

definition consecutive :: "string list \<Rightarrow> nat \<Rightarrow> 'f poll list \<Rightarrow> nat" where
  "consecutive ejectNodes start polls =
     foldl (\<lambda>n p. if stillActive ejectNodes p then 0
                   else if stillPresent ejectNodes p then n + 1 else n) start polls"

text \<open>The durations slept, in order, and the sleep that a round's status answer asks for.\<close>

definition sleeps :: "effect list \<Rightarrow> int list" where
  "sleeps effects = concat (map (\<lambda>e. case e of TimeSleep d \<Rightarrow> [d] | _ \<Rightarrow> []) effects)"

text \<open>
  For every status poll of a trace, in order: the duration of the sleep that stands
  directly before it, or \<open>None\<close> when no sleep does.
\<close>

fun sleepBeforePolls :: "effect list \<Rightarrow> int option list" where
  "sleepBeforePolls [] = []"
| "sleepBeforePolls (TimeSleep d # CallRebalanceStatus # effects) =
     Some d # sleepBeforePolls effects"
| "sleepBeforePolls (CallRebalanceStatus # effects) = None # sleepBeforePolls effects"
| "sleepBeforePolls (e # effects) = sleepBeforePolls effects"

definition recommendedSleep :: "('f \<Rightarrow> int) \<Rightarrow> 'f poll \<Rightarrow> int" where
  "recommendedSleep toDuration p =
     (case statusAnswer p of
        Inl err \<Rightarrow> 500 * Millisecond
      | Inr status \<Rightarrow> max (toDuration (RecommendedRefreshPeriod status)) (2 * Second))"

section \<open>Properties\<close>

subsection \<open>Host matching\<close>

lemma Split_not_Nil: "Split s sep \<noteq> []"
  by (induction s) (auto split: list.splits)

lemma Split_first: "Split s sep ! 0 = takeWhile (\<lambda>c. c \<noteq> sep) s"
proof (induction s)
  case Nil
  then show ?case by simp
next
  case (Cons c s)
  then show ?case
    using Split_not_Nil [of s sep] by (cases "Split s sep") auto
qed

lemma stripPort_takeWhile: "stripPort str = takeWhile (\<lambda>c. c \<noteq> CHR '':'') str"
  by (simp add: stripPort_def Split_first)

lemma strSliceContains_iff:
  "strSliceContains slice item = (\<exists>elem \<in> set slice. stripPort item = stripPort elem)"
  by (induction slice) auto

subsection \<open>The resolution loop\<close>


lemma otpLoop_subset:
  "set oe \<subseteq> set oa \<Longrightarrow>
   set (fst (otpLoop ej nodes oe oa)) \<subseteq> set (fst (snd (otpLoop ej nodes oe oa)))"
proof (induction nodes arbitrary: oe oa)
  case Nil
  then show ?case by simp
next
  case (Cons node nodes)
  have "set (oe @ [OTPNode node]) \<subseteq> set (oa @ [OTPNode node])"
    and "set oe \<subseteq> set (oa @ [OTPNode node])"
    using Cons.prems by auto
  then show ?case
    using Cons.prems by (simp add: Cons.IH)
qed

lemma otpLoop_missing:
  "find (\<lambda>n. OTPNode n = []) nodes = Some bad \<Longrightarrow>
   \<exists>oe' oa'. otpLoop ej nodes oe oa = (oe', oa', Some (ErrNoOTPName bad))"
  by (induction nodes arbitrary: oe oa) (auto split: if_splits)

lemma otpLoop_cong:
  "(\<And>h. strSliceContains ej h = strSliceContains ej' h) \<Longrightarrow>
   otpLoop ej nodes oe oa = otpLoop ej' nodes oe oa"
  by (induction nodes arbitrary: oe oa) auto

lemma getInfo_find:
  "getInfo nodes = (case find ThisNode nodes of None \<Rightarrow> Inl ErrNoNodeInfo | Some n \<Rightarrow> Inr n)"
  by (induction nodes) auto




subsection \<open>The caches of a handle\<close>

lemma Info_cached: "info c = Some n \<Longrightarrow> Info c r = (Inr n, c, [])"
  by (simp add: Info_def)

lemma Cluster_cached: "cluster c = Some k \<Longrightarrow> Cluster d c s = (Inr k, c, [])"
  by (simp add: Cluster_def)

lemma Info_keeps_cluster: "cluster (fst (snd (Info c r))) = cluster c"
  by (simp add: Info_def split: option.splits sum.splits)

lemma Cluster_keeps_info: "info (fst (snd (Cluster d c s))) = info c"
  by (simp add: Cluster_def split: option.splits sum.splits)

lemma Info_fills:
  "info c = None \<Longrightarrow> find ThisNode nodes = Some m \<Longrightarrow>
   Info c (Inr nodes) = (Inr m, c\<lparr>info := Some m\<rparr>, [CallNodes])"
  by (simp add: Info_def getInfo_find)

lemma Info_fails:
  "info c = None \<Longrightarrow> \<not> (\<exists>nodes m. r = Inr nodes \<and> find ThisNode nodes = Some m) \<Longrightarrow>
   \<exists>e. Info c r = (Inl e, c, [CallNodes])"
  by (cases r) (auto simp: Info_def getInfo_find split: option.splits)

lemma Cluster_fills:
  "cluster c = None \<Longrightarrow> StatusCode resp = 200 \<Longrightarrow> Body resp = Inr body \<Longrightarrow> d body = Inr k \<Longrightarrow>
   Cluster d c (Inr resp) = (Inr k, c\<lparr>cluster := Some k\<rparr>, [CallRequest ''GET'' ''/pools''])"
  by (simp add: Cluster_def Request_def CheckStatusCode_def)

lemma Cluster_fails:
  "cluster c = None \<Longrightarrow>
   \<not> (\<exists>resp body k. s = Inr resp \<and> StatusCode resp = 200 \<and> Body resp = Inr body \<and> d body = Inr k) \<Longrightarrow>
   \<exists>e. Cluster d c s = (Inl e, c, [CallRequest ''GET'' ''/pools''])"
  by (cases s) (auto simp: Cluster_def Request_def CheckStatusCode_def split: option.splits sum.splits)

lemma handleCalls_info_cached:
  "info c = Some n \<Longrightarrow>
   info (snd (handleCalls d c qs)) = Some n \<and>
   (\<forall>i < length qs. \<forall>r. qs ! i = AskInfo r \<longrightarrow>
      fst (handleCalls d c qs) ! i = (InfoReply (Inr n), []))"
proof (induction d c qs rule: handleCalls.induct)
  case (1 d c)
  then show ?case by simp
next
  case (2 d c r qs)
  then show ?case
    by (auto simp: Info_cached nth_Cons split: prod.splits nat.splits)
next
  case (3 d c s qs)
  obtain res c' effs where cl: "Cluster d c s = (res, c', effs)"
    by (cases "Cluster d c s")
  with Cluster_keeps_info [of d c s] "3.prems" have "info c' = Some n" by simp
  with 3 cl show ?case
    by (auto simp: nth_Cons split: prod.splits nat.splits)
qed

lemma handleCalls_cluster_cached:
  "cluster c = Some k \<Longrightarrow>
   cluster (snd (handleCalls d c qs)) = Some k \<and>
   (\<forall>i < length qs. \<forall>s. qs ! i = AskCluster s \<longrightarrow>
      fst (handleCalls d c qs) ! i = (ClusterReply (Inr k), []))"
proof (induction d c qs rule: handleCalls.induct)
  case (1 d c)
  then show ?case by simp
next
  case (2 d c r qs)
  obtain res c' effs where cl: "Info c r = (res, c', effs)"
    by (cases "Info c r")
  with Info_keeps_cluster [of c r] "2.prems" have "cluster c' = Some k" by simp
  with 2 cl show ?case
    by (auto simp: nth_Cons split: prod.splits nat.splits)
next
  case (3 d c s qs)
  then show ?case
    by (auto simp: Cluster_cached nth_Cons split: prod.splits nat.splits)
qed

lemma handleCalls_info_filled:
  assumes "info c = None" and "find ThisNode nodes = Some m"
  shows "info (snd (handleCalls d c (AskInfo (Inr nodes) # qs))) = Some m \<and>
         (\<forall>i < length qs. \<forall>a. qs ! i = AskInfo a \<longrightarrow>
            fst (handleCalls d c (AskInfo (Inr nodes) # qs)) ! Suc i = (InfoReply (Inr m), []))"
  using handleCalls_info_cached [of "c\<lparr>info := Some m\<rparr>" m d qs] Info_fills [OF assms]
  by (auto split: prod.splits)

lemma handleCalls_cluster_filled:
  assumes "cluster c = None" and "StatusCode resp = 200" and "Body resp = Inr body"
      and "d body = Inr k"
  shows "cluster (snd (handleCalls d c (AskCluster (Inr resp) # qs))) = Some k \<and>
         (\<forall>i < length qs. \<forall>a. qs ! i = AskCluster a \<longrightarrow>
            fst (handleCalls d c (AskCluster (Inr resp) # qs)) ! Suc i = (ClusterReply (Inr k), []))"
  using handleCalls_cluster_cached [of "c\<lparr>cluster := Some k\<rparr>" k d qs]
    Cluster_fills [of c resp body d k] assms
  by (auto split: prod.splits)

subsection \<open>The removal loop\<close>

lemma flag_foldl:
  "foldl (\<lambda>flag x. if P x then True else flag) b xs = (b \<or> (\<exists>x \<in> set xs. P x))"
  by (induction xs arbitrary: b) auto

lemma nodeInRebalance_iff:
  "nodeInRebalance ej sn = (\<exists>node \<in> set ej. strSliceContains sn node)"
  by (simp add: nodeInRebalance_def flag_foldl)

lemma nodeInCluster_iff:
  "nodeInCluster ej nodes = (\<exists>node \<in> set nodes. strSliceContains ej (OTPNode node))"
  by (simp add: nodeInCluster_def flag_foldl)

lemma stillActive_iff:
  "stillActive ej p =
     (\<exists>status. statusAnswer p = Inr status
        \<and> (\<exists>node \<in> set ej. strSliceContains (StatusNodes status) node))"
  by (cases "statusAnswer p") (simp_all add: stillActive_def nodeInRebalance_iff)

lemma stillPresent_iff:
  "stillPresent ej p =
     (\<exists>status nodes. statusAnswer p = Inr status \<and> nodesAnswer p = Inr nodes
        \<and> \<not> (\<exists>node \<in> set ej. strSliceContains (StatusNodes status) node)
        \<and> (\<exists>node \<in> set nodes. strSliceContains ej (OTPNode node)))"
  by (cases "statusAnswer p"; cases "nodesAnswer p")
    (simp_all add: stillPresent_def nodeInRebalance_iff nodeInCluster_iff)

lemma pollStep_stuck:
  "(snd (pollStep td ej s c p) = Inl StuckRemoval) = (stillPresent ej p \<and> 10 < c)"
  by (simp add: pollStep_def stillPresent_def Let_def split: sum.splits)

lemma pollStep_continue:
  "snd (pollStep td ej s c p) = Inr (s', c') \<Longrightarrow>
   c' = (if stillActive ej p then 0 else if stillPresent ej p then c + 1 else c)"
  by (auto simp: pollStep_def stillPresent_def stillActive_def Let_def split: sum.splits if_splits)

lemma pollStep_next_sleep:
  "snd (pollStep td ej s c p) = Inr (s', c') \<Longrightarrow> s' = recommendedSleep td p"
  by (auto simp: pollStep_def recommendedSleep_def minSleep_def Let_def max_def
      split: sum.splits if_splits)

lemma pollStep_sleeps: "sleeps (fst (pollStep td ej s c p)) = [s]"
  by (simp add: pollStep_def sleeps_def Let_def split: sum.splits)

lemma pollStep_failed:
  "isl (statusAnswer p) \<Longrightarrow>
   pollStep td ej s c p =
     ([TimeSleep s, CallRebalanceStatus, LogWarn], Inr (500 * Millisecond, c))"
  by (cases "statusAnswer p") (simp_all add: pollStep_def)

lemma sleeps_append: "sleeps (xs @ ys) = sleeps xs @ sleeps ys"
  by (simp add: sleeps_def)

lemma pollLoop_Cons_snd:
  "snd (pollLoop td ej s c (q # qs)) =
     (case snd (pollStep td ej s c q) of
        Inl out \<Rightarrow> Some out
      | Inr (s', c') \<Rightarrow> snd (pollLoop td ej s' c' qs))"
  by (simp split: prod.splits sum.splits)

lemma pollLoop_Cons_fst:
  "fst (pollLoop td ej s c (q # qs)) =
     (case snd (pollStep td ej s c q) of
        Inl out \<Rightarrow> fst (pollStep td ej s c q)
      | Inr (s', c') \<Rightarrow> fst (pollStep td ej s c q) @ fst (pollLoop td ej s' c' qs))"
  by (simp split: prod.splits sum.splits)

text \<open>
  While the loop is still polling, its counter is the number of \<open>stillPresent\<close> rounds in
  a row, and the next round ends it in \<open>StuckRemoval\<close> exactly when that round is
  \<open>stillPresent\<close> again and the counter is above 10.
\<close>

lemma pollLoop_stuck_at:
  "snd (pollLoop td ej s c ps) = None \<Longrightarrow>
   (snd (pollLoop td ej s c (ps @ [p])) = Some StuckRemoval) =
   (stillPresent ej p \<and> 10 < consecutive ej c ps)"
proof (induction ps arbitrary: s c)
  case Nil
  show ?case
    using pollStep_stuck [of td ej s c p]
    by (cases "pollStep td ej s c p") (auto simp: consecutive_def split: sum.splits)
next
  case (Cons q qs)
  show ?case
  proof (cases "snd (pollStep td ej s c q)")
    case (Inl out)
    with Cons.prems show ?thesis by (simp add: pollLoop_Cons_snd del: pollLoop.simps)
  next
    case (Inr sc)
    obtain s' c' where sc: "sc = (s', c')" by (cases sc)
    from Inr sc have step: "snd (pollStep td ej s c q) = Inr (s', c')" by simp
    from pollStep_continue [OF step]
    have c': "consecutive ej c (q # qs) = consecutive ej c' qs"
      by (simp add: consecutive_def)
    from Cons.prems step have "snd (pollLoop td ej s' c' qs) = None"
      by (simp add: pollLoop_Cons_snd del: pollLoop.simps)
    from Cons.IH [OF this] step c' show ?thesis
      by (simp add: pollLoop_Cons_snd del: pollLoop.simps)
  qed
qed

lemma pollLoop_sleeps:
  "snd (pollLoop td ej s c ps) = None \<Longrightarrow>
   sleeps (fst (pollLoop td ej s c (ps @ [p]))) = s # map (recommendedSleep td) ps"
proof (induction ps arbitrary: s c)
  case Nil
  show ?case
    using pollStep_sleeps [of td ej s c p]
    by (cases "pollStep td ej s c p") (auto split: sum.splits simp: sleeps_append)
next
  case (Cons q qs)
  show ?case
  proof (cases "snd (pollStep td ej s c q)")
    case (Inl out)
    with Cons.prems show ?thesis by (simp add: pollLoop_Cons_snd del: pollLoop.simps)
  next
    case (Inr sc)
    obtain s' c' where sc: "sc = (s', c')" by (cases sc)
    from Inr sc have step: "snd (pollStep td ej s c q) = Inr (s', c')" by simp
    from Cons.prems step have "snd (pollLoop td ej s' c' qs) = None"
      by (simp add: pollLoop_Cons_snd del: pollLoop.simps)
    from Cons.IH [OF this] step pollStep_next_sleep [OF step] pollStep_sleeps [of td ej s c q]
    show ?thesis
      by (simp add: pollLoop_Cons_fst sleeps_append del: pollLoop.simps)
  qed
qed

lemma pollStep_sleepBefore:
  "sleepBeforePolls (fst (pollStep td ej s c p) @ rest) = Some s # sleepBeforePolls rest"
  by (cases rest) (simp_all add: pollStep_def Let_def split: sum.splits)

lemma pollLoop_sleepBefore:
  "snd (pollLoop td ej s c ps) = None \<Longrightarrow>
   sleepBeforePolls (fst (pollLoop td ej s c (ps @ [p]))) =
     map Some (s # map (recommendedSleep td) ps)"
proof (induction ps arbitrary: s c)
  case Nil
  show ?case
    using pollStep_sleepBefore [of td ej s c p "[]"]
    by (cases "pollStep td ej s c p") (auto split: sum.splits prod.splits)
next
  case (Cons q qs)
  show ?case
  proof (cases "snd (pollStep td ej s c q)")
    case (Inl out)
    with Cons.prems show ?thesis by (simp add: pollLoop_Cons_snd del: pollLoop.simps)
  next
    case (Inr sc)
    obtain s' c' where sc: "sc = (s', c')" by (cases sc)
    from Inr sc have step: "snd (pollStep td ej s c q) = Inr (s', c')" by simp
    from Cons.prems step have "snd (pollLoop td ej s' c' qs) = None"
      by (simp add: pollLoop_Cons_snd del: pollLoop.simps)
    from Cons.IH [OF this] step pollStep_next_sleep [OF step]
    show ?thesis
      by (simp add: pollLoop_Cons_fst pollStep_sleepBefore del: pollLoop.simps)
  qed
qed

lemma pollLoop_failed_polls:
  "list_all (\<lambda>p. isl (statusAnswer p)) ps \<Longrightarrow>
   snd (pollLoop td ej s c ps) = None \<and>
   pollLoop td ej s c (ps @ qs) =
     (fst (pollLoop td ej s c ps)
        @ fst (pollLoop td ej (if ps = [] then s else 500 * Millisecond) c qs),
      snd (pollLoop td ej (if ps = [] then s else 500 * Millisecond) c qs))"
proof (induction ps arbitrary: s)
  case Nil
  then show ?case by simp
next
  case (Cons q ps)
  then have q: "isl (statusAnswer q)" and rest: "list_all (\<lambda>p. isl (statusAnswer p)) ps"
    by simp_all
  from Cons.IH [OF rest, of "500 * Millisecond"] pollStep_failed [OF q, of td ej s c]
  show ?case
    by (auto split: prod.splits)
qed

text \<open>
  \<open>RemoveNodes\<close> enters the loop with a sleep of zero, a counter of zero and the eject
  list it resolved, once the resolution and the trigger have succeeded.
\<close>

lemma RemoveNodes_polls:
  "GetOTPNodes removeNodes [] [] nodesRead = (ej, fo, ra, allNodes, None) \<Longrightarrow>
   length ej = length removeNodes \<Longrightarrow>
   RemoveNodes td removeNodes nodesRead None polls =
     ([CallNodes, CallRebalance allNodes ej] @ fst (pollLoop td ej 0 0 polls),
      map_option Inr (snd (pollLoop td ej 0 0 polls)))"
  by (simp add: RemoveNodes_def split: prod.splits)

subsection \<open>The waiting loop\<close>

lemma Second_pos: "0 < Second"
  by (simp add: Second_def Millisecond_def)

lemma next_tick_within_second: "Second * (x div Second + 1) \<le> x + Second"
proof -
  have "Second * (x div Second) \<le> x"
    using pos_mod_sign [OF Second_pos, of x] mult_div_mod_eq [of Second x] by linarith
  then show ?thesis by (simp add: algebra_simps)
qed

text \<open>
  With a timeout above one second the tick of a round always comes before the timer of
  that round: as long as the probes fail, the loop does not return.
\<close>

lemma selectLoop_tick_first:
  assumes "Second < timeout"
      and "nextTick \<le> now + Second"
      and "\<forall>a \<in> set attempts. \<not> succeeds (answer a) \<and> 0 \<le> took a"
  shows "\<exists>at. selectLoop succeeds timeout tie now nextTick attempts = StillWaiting at \<and> now \<le> at"
  using assms(2,3)
proof (induction attempts arbitrary: now nextTick)
  case Nil
  with assms(1) Second_pos show ?case by (auto simp: Let_def)
next
  case (Cons a attempts)
  let ?tickAt = "max now nextTick"
  have first: "\<not> (now + max 0 timeout < ?tickAt \<or> (now + max 0 timeout = ?tickAt \<and> tie))"
    using assms(1) Cons.prems(1) Second_pos by auto
  have fails: "\<not> succeeds (answer a)" and dur: "0 \<le> took a"
    and rest: "\<forall>a \<in> set attempts. \<not> succeeds (answer a) \<and> 0 \<le> took a"
    using Cons.prems(2) by simp_all
  have "Second * (?tickAt div Second + 1) \<le> (?tickAt + took a) + Second"
    using next_tick_within_second [of ?tickAt] dur by linarith
  from Cons.IH [OF this rest] obtain at where
    at: "selectLoop succeeds timeout tie (?tickAt + took a) (Second * (?tickAt div Second + 1)) attempts
          = StillWaiting at" "?tickAt + took a \<le> at"
    by blast
  have "selectLoop succeeds timeout tie now nextTick (a # attempts) = StillWaiting at"
    using first fails at(1) by (simp add: Let_def)
  moreover have "now \<le> at" using at(2) dur by linarith
  ultimately show ?case by blast
qed

lemma selectLoop_step:
  assumes "max now nextTick < now + max 0 timeout" and "\<not> succeeds (answer a)"
  shows "selectLoop succeeds timeout tie now nextTick (a # attempts) =
         selectLoop succeeds timeout tie (max now nextTick + took a)
           (Second * (max now nextTick div Second + 1)) attempts"
proof -
  have tick_first: "\<not> (now + max 0 timeout < max now nextTick
      \<or> (now + max 0 timeout = max now nextTick \<and> tie))"
    using assms(1) by linarith
  show ?thesis
    by (subst selectLoop.simps(2))
      (simp only: Let_def if_not_P [OF tick_first] if_not_P [OF assms(2)])
qed

lemma selectLoop_failing_probes:
  "\<not> succeeds r \<Longrightarrow>
   selectLoop succeeds (5 * Second) tie (int k * Second) (int k * Second + Second)
     (replicate n \<lparr>took = 0, answer = r\<rparr>) = StillWaiting (int (k + n) * Second)"
proof (induction n arbitrary: k)
  case 0
  then show ?case using Second_pos by (simp add: Let_def)
next
  case (Suc n)
  let ?x = "\<lparr>took = 0, answer = r\<rparr>"
  let ?tickAt = "max (int k * Second) (int k * Second + Second)"
  have tick: "?tickAt = int (Suc k) * Second"
    using Second_pos by (simp add: algebra_simps)
  have now': "?tickAt + took ?x = int (Suc k) * Second"
    using tick by simp
  have "int (Suc k) * Second div Second = int (Suc k)"
    using Second_pos by simp
  then have nxt: "Second * (?tickAt div Second + 1) = int (Suc k) * Second + Second"
    unfolding tick by (simp add: algebra_simps)
  have first: "?tickAt < int k * Second + max 0 (5 * Second)"
    unfolding tick using Second_pos by (simp add: algebra_simps)
  have fails: "\<not> succeeds (answer ?x)" using Suc.prems by simp
  have "selectLoop succeeds (5 * Second) tie (int k * Second) (int k * Second + Second)
          (replicate (Suc n) ?x)
        = selectLoop succeeds (5 * Second) tie (?tickAt + took ?x)
            (Second * (?tickAt div Second + 1)) (replicate n ?x)"
    using selectLoop_step [of "int k * Second" "int k * Second + Second" "5 * Second"
        succeeds ?x tie "replicate n ?x", OF first fails]
    by simp
  also have "\<dots> = selectLoop succeeds (5 * Second) tie (int (Suc k) * Second)
            (int (Suc k) * Second + Second) (replicate n ?x)"
    unfolding now' nxt ..
  also have "\<dots> = StillWaiting (int (Suc k + n) * Second)"
    using Suc.IH [OF Suc.prems, of "Suc k"] .
  finally show ?case by simp
qed

lemma IsReady_short_timeout:
  "IsReady rawURL (500 * Millisecond) tie pings =
     ReturnsAt (500 * Millisecond) (False, Some (ErrorWaitNodeTimeout rawURL))"
  by (cases pings) (simp_all add: IsReady_def Let_def Second_def Millisecond_def)

subsection \<open>Claims on host matching and identity resolution\<close>

text \<open>
  C4. Host matching ignores ports: the test of \<open>strSliceContains\<close> on one element holds
  exactly when the two strings agree before their first \<open>:\<close>, and a slice contains an
  item exactly when one of its elements agrees with it in that way. \<open>node1:8091\<close> and
  \<open>node1\<close> resolve to the same result against every topology read, and both match a
  host named \<open>node1\<close>.
\<close>

theorem C4_host_matching_ignores_port:
  "strSliceContains [b] a =
     (takeWhile (\<lambda>c. c \<noteq> CHR '':'') a = takeWhile (\<lambda>c. c \<noteq> CHR '':'') b)
   \<and> strSliceContains slice a =
       (\<exists>e \<in> set slice. takeWhile (\<lambda>c. c \<noteq> CHR '':'') a = takeWhile (\<lambda>c. c \<noteq> CHR '':'') e)
   \<and> GetOTPNodes [''node1:8091''] fo ra r = GetOTPNodes [''node1''] fo ra r
   \<and> strSliceContains [''node1:8091''] ''node1'' \<and> strSliceContains [''node1''] ''node1''"
proof -
  have m: "\<And>h. strSliceContains [''node1:8091''] h = strSliceContains [''node1''] h"
    by (simp add: stripPort_takeWhile)
  have "GetOTPNodes [''node1:8091''] fo ra r = GetOTPNodes [''node1''] fo ra r"
    by (cases r) (simp_all add: GetOTPNodes_def otpLoop_cong [OF m])
  then show ?thesis
    by (simp add: strSliceContains_iff stripPort_takeWhile)
qed

theorem C4_witness:
  "GetOTPNodes [''node1:8091''] [] []
     (Inr [zeroNode\<lparr>Hostname := ''node1'', OTPNode := ''ns_1@node1''\<rparr>])
   = ([''ns_1@node1''], [], [], [''ns_1@node1''], None)
   \<and> strSliceContains [''node1:8091''] ''node1''"
proof -
  have "GetOTPNodes [''node1''] [] []
          (Inr [zeroNode\<lparr>Hostname := ''node1'', OTPNode := ''ns_1@node1''\<rparr>])
        = ([''ns_1@node1''], [], [], [''ns_1@node1''], None)"
    by (simp add: GetOTPNodes_def stripPort_takeWhile)
  then show ?thesis
    using C4_host_matching_ignores_port
      [of "[]" "[]" "[]" "[]" "[]" "Inr [zeroNode\<lparr>Hostname := ''node1'', OTPNode := ''ns_1@node1''\<rparr>]"]
    by (simp add: stripPort_takeWhile)
qed

text \<open>
  C7. When \<open>GetOTPNodes\<close> returns without error, every handle of its eject list is a
  handle of its all-nodes list.
\<close>

theorem C7_eject_subset_of_all:
  assumes "GetOTPNodes ej fo ra r = (oe, ofo, ora, oa, None)"
  shows "set oe \<subseteq> set oa"
proof (cases r)
  case (Inl e)
  with assms show ?thesis by (simp add: GetOTPNodes_def)
next
  case (Inr nodes)
  with assms have "otpLoop ej nodes [] [] = (oe, oa, None)"
    by (simp add: GetOTPNodes_def split: prod.splits)
  with otpLoop_subset [of "[]" "[]" ej nodes] show ?thesis by simp
qed

theorem C7_witness:
  "GetOTPNodes [''b:8091''] [] []
     (Inr [zeroNode\<lparr>Hostname := ''a'', OTPNode := ''ns_1@a''\<rparr>,
           zeroNode\<lparr>Hostname := ''b'', OTPNode := ''ns_1@b''\<rparr>])
   = ([''ns_1@b''], [], [], [''ns_1@a'', ''ns_1@b''], None)
   \<and> set [''ns_1@b''] \<subseteq> set [''ns_1@a'', ''ns_1@b'']"
proof -
  have run: "GetOTPNodes [''b:8091''] [] []
     (Inr [zeroNode\<lparr>Hostname := ''a'', OTPNode := ''ns_1@a''\<rparr>,
           zeroNode\<lparr>Hostname := ''b'', OTPNode := ''ns_1@b''\<rparr>])
   = ([''ns_1@b''], [], [], [''ns_1@a'', ''ns_1@b''], None)"
    by (simp add: GetOTPNodes_def stripPort_takeWhile)
  from C7_eject_subset_of_all [OF run] run show ?thesis by simp
qed

text \<open>
  C10. \<open>GetOTPNodes\<close> never looks at \<open>failoverNode\<close> and \<open>reAddNode\<close>: the second and
  third results are always empty, and the whole result is the same for any other pair
  of values in those positions.
\<close>

theorem C10_failover_and_readd_ignored:
  "fst (snd (GetOTPNodes ej fo ra r)) = []
   \<and> fst (snd (snd (GetOTPNodes ej fo ra r))) = []
   \<and> GetOTPNodes ej fo ra r = GetOTPNodes ej fo' ra' r"
  by (simp add: GetOTPNodes_def split: sum.splits prod.splits)

theorem C10_witness:
  "GetOTPNodes [''a''] [''x''] [''y''] (Inr [zeroNode\<lparr>Hostname := ''a'', OTPNode := ''ns_1@a''\<rparr>])
   = GetOTPNodes [''a''] [] [] (Inr [zeroNode\<lparr>Hostname := ''a'', OTPNode := ''ns_1@a''\<rparr>])"
  using C10_failover_and_readd_ignored
    [of "[''a'']" "[''x'']" "[''y'']" "Inr [zeroNode\<lparr>Hostname := ''a'', OTPNode := ''ns_1@a''\<rparr>]" "[]" "[]"]
  by simp




text \<open>
  C9. When a node of the topology read has no OTP name, \<open>GetOTPNodes\<close> returns the
  error for the first such node, and \<open>RemoveNodes\<close> returns that error right after the
  read: whatever lists were built so far are dropped, no rebalance is triggered and no
  poll is made.
\<close>

theorem C9_missing_identity_aborts:
  assumes "bad \<in> set nodes" and "OTPNode bad = []"
  shows "\<exists>first. first \<in> set nodes \<and> OTPNode first = []
     \<and> snd (snd (snd (snd (GetOTPNodes ej fo ra (Inr nodes))))) = Some (ErrNoOTPName first)
     \<and> RemoveNodes toDuration ej (Inr nodes) rebalanceResult polls =
         ([CallNodes], Some (Inl (ErrNoOTPName first)))"
proof -
  from assms obtain first where f: "find (\<lambda>n. OTPNode n = []) nodes = Some first"
    by (cases "find (\<lambda>n. OTPNode n = []) nodes") (auto simp: find_None_iff)
  then have mem: "first \<in> set nodes" "OTPNode first = []"
    by (auto simp: find_Some_iff)
  from otpLoop_missing [OF f] obtain oe' oa' where
    "otpLoop ej nodes [] [] = (oe', oa', Some (ErrNoOTPName first))" by blast
  then have "snd (snd (snd (snd (GetOTPNodes ej fo ra (Inr nodes))))) = Some (ErrNoOTPName first)"
    and "RemoveNodes toDuration ej (Inr nodes) rebalanceResult polls =
         ([CallNodes], Some (Inl (ErrNoOTPName first)))"
    by (simp_all add: GetOTPNodes_def RemoveNodes_def)
  with mem show ?thesis by blast
qed

theorem C9_witness:
  "\<exists>first. OTPNode first = []
     \<and> RemoveNodes (\<lambda>period :: int. period * Second) [''a'']
         (Inr [zeroNode\<lparr>Hostname := ''a'', OTPNode := ''ns_1@a''\<rparr>,
               zeroNode\<lparr>Hostname := ''b''\<rparr>]) None []
       = ([CallNodes], Some (Inl (ErrNoOTPName first)))"
proof -
  have "zeroNode\<lparr>Hostname := ''b''\<rparr> \<in>
          set [zeroNode\<lparr>Hostname := ''a'', OTPNode := ''ns_1@a''\<rparr>, zeroNode\<lparr>Hostname := ''b''\<rparr>]"
    and "OTPNode (zeroNode\<lparr>Hostname := ''b''\<rparr>) = []"
    by (simp_all add: zeroNode_def)
  from C9_missing_identity_aborts [OF this] show ?thesis by blast
qed

subsection \<open>Claims on health\<close>

text \<open>
  C6. \<open>healthy\<close> returns nil exactly when the topology read succeeded with at least two
  nodes, a node flagged \<open>ThisNode\<close> exists, and the status of the self node (the first
  one flagged, which is what \<open>getInfo\<close> returns) is the string \<open>healthy\<close>. A one-node
  topology fails, and so does a self node whose status is \<open>warmup\<close>.
\<close>

theorem C6_healthy_iff:
  "(healthy r = None) =
     (\<exists>nodes self. r = Inr nodes \<and> 2 \<le> length nodes \<and> (\<exists>n \<in> set nodes. ThisNode n)
        \<and> getInfo nodes = Inr self \<and> find ThisNode nodes = Some self
        \<and> Status self = ''healthy'')
   \<and> healthy (Inr [n]) = Some ErrNotJoined
   \<and> (2 \<le> length nodes \<and> find ThisNode nodes = Some self \<and> Status self = ''warmup''
        \<longrightarrow> healthy (Inr nodes) = Some (ErrNodeStatus ''warmup'' ''healthy''))"
proof -
  have "(healthy r = None) =
     (\<exists>nodes self. r = Inr nodes \<and> 2 \<le> length nodes \<and> (\<exists>n \<in> set nodes. ThisNode n)
        \<and> getInfo nodes = Inr self \<and> find ThisNode nodes = Some self
        \<and> Status self = ''healthy'')"
    by (cases r) (auto simp: healthy_def getInfo_find find_Some_iff split: option.splits)
  moreover have "healthy (Inr [n]) = Some ErrNotJoined"
    by (simp add: healthy_def)
  moreover have "2 \<le> length nodes \<and> find ThisNode nodes = Some self \<and> Status self = ''warmup''
        \<longrightarrow> healthy (Inr nodes) = Some (ErrNodeStatus ''warmup'' ''healthy'')"
    by (simp add: healthy_def getInfo_find)
  ultimately show ?thesis by blast
qed

theorem C6_witness:
  "healthy (Inr [zeroNode\<lparr>ThisNode := True, Status := ''healthy''\<rparr>, zeroNode]) = None
   \<and> healthy (Inr [zeroNode\<lparr>ThisNode := True, Status := ''warmup''\<rparr>, zeroNode])
       = Some (ErrNodeStatus ''warmup'' ''healthy'')"
proof -
  have "healthy (Inr [zeroNode\<lparr>ThisNode := True, Status := ''healthy''\<rparr>, zeroNode]) = None"
    by (simp add: healthy_def)
  then show ?thesis
    using C6_healthy_iff [of "Inr [zeroNode\<lparr>ThisNode := True, Status := ''healthy''\<rparr>, zeroNode]"
        zeroNode "[zeroNode\<lparr>ThisNode := True, Status := ''warmup''\<rparr>, zeroNode]"
        "zeroNode\<lparr>ThisNode := True, Status := ''warmup''\<rparr>"]
    by simp
qed

subsection \<open>Claims on the removal loop\<close>

text \<open>
  C1, as amended. While the loop is still polling, the next round ends the run in
  \<open>StuckRemoval\<close> exactly when that round is \<open>stillPresent\<close> (the status names no ejected
  handle, the topology read still holds one) and it is at least the twelfth such round
  in a row, this round counted: the source tests \<open>nodeInClusterCount > 10\<close> before it
  counts the round. A \<open>stillActive\<close> round starts the count again at zero.
\<close>

theorem C1_stuck_removal_threshold:
  assumes "snd (pollLoop td ej 0 0 ps) = None"
  shows "(snd (pollLoop td ej 0 0 (ps @ [p])) = Some StuckRemoval) =
         (stillPresent ej p \<and> 11 < consecutive ej 0 (ps @ [p]))"
proof -
  have "stillPresent ej p \<Longrightarrow> \<not> stillActive ej p"
    by (simp add: stillPresent_def stillActive_def split: sum.splits)
  then have "stillPresent ej p \<Longrightarrow> consecutive ej 0 (ps @ [p]) = consecutive ej 0 ps + 1"
    by (simp add: consecutive_def)
  with pollLoop_stuck_at [OF assms, of p] show ?thesis by auto
qed

theorem C1_witness:
  "snd (pollLoop (\<lambda>period :: int. period * Second) [''ns_1@b''] 0 0
      (replicate 11
         \<lparr>statusAnswer = Inr \<lparr>RecommendedRefreshPeriod = 1, StatusNodes = []\<rparr>,
          nodesAnswer = Inr [zeroNode\<lparr>Hostname := ''b'', OTPNode := ''ns_1@b''\<rparr>]\<rparr>
       @ [\<lparr>statusAnswer = Inr \<lparr>RecommendedRefreshPeriod = 1, StatusNodes = []\<rparr>,
           nodesAnswer = Inr [zeroNode\<lparr>Hostname := ''b'', OTPNode := ''ns_1@b''\<rparr>]\<rparr>]))
   = Some StuckRemoval"
proof -
  let ?p = "\<lparr>statusAnswer = Inr \<lparr>RecommendedRefreshPeriod = 1 :: int, StatusNodes = []\<rparr>,
          nodesAnswer = Inr [zeroNode\<lparr>Hostname := ''b'', OTPNode := ''ns_1@b''\<rparr>]\<rparr>"
  have polling: "snd (pollLoop (\<lambda>period :: int. period * Second) [''ns_1@b''] 0 0
      (replicate 11 ?p)) = None"
    by (simp add: eval_nat_numeral nodeInRebalance_def nodeInCluster_def pollStep_def
        stripPort_takeWhile zeroNode_def minSleep_def Second_def Millisecond_def)
  have seen: "stillPresent [''ns_1@b''] ?p \<and> 11 < consecutive [''ns_1@b''] 0 (replicate 11 ?p @ [?p])"
    by (simp add: eval_nat_numeral stillPresent_def stillActive_def consecutive_def
        nodeInRebalance_def nodeInCluster_def stripPort_takeWhile zeroNode_def)
  from C1_stuck_removal_threshold [OF polling, of ?p] seen show ?thesis by blast
qed

text \<open>
  Eleven \<open>stillPresent\<close> rounds in a row are more than 10, and the loop is still polling
  after them; a twelfth round that finds the node gone ends the run with \<open>Done\<close>.
\<close>

theorem C1_counterexample:
  "stillPresent [''ns_1@b'']
     \<lparr>statusAnswer = Inr \<lparr>RecommendedRefreshPeriod = 1 :: int, StatusNodes = []\<rparr>,
      nodesAnswer = Inr [zeroNode\<lparr>Hostname := ''b'', OTPNode := ''ns_1@b''\<rparr>]\<rparr>
   \<and> consecutive [''ns_1@b''] 0
       (replicate 11
          \<lparr>statusAnswer = Inr \<lparr>RecommendedRefreshPeriod = 1 :: int, StatusNodes = []\<rparr>,
           nodesAnswer = Inr [zeroNode\<lparr>Hostname := ''b'', OTPNode := ''ns_1@b''\<rparr>]\<rparr>) = 11
   \<and> snd (pollLoop (\<lambda>period :: int. period * Second) [''ns_1@b''] 0 0
       (replicate 11
          \<lparr>statusAnswer = Inr \<lparr>RecommendedRefreshPeriod = 1, StatusNodes = []\<rparr>,
           nodesAnswer = Inr [zeroNode\<lparr>Hostname := ''b'', OTPNode := ''ns_1@b''\<rparr>]\<rparr>)) = None
   \<and> snd (pollLoop (\<lambda>period :: int. period * Second) [''ns_1@b''] 0 0
       (replicate 11
          \<lparr>statusAnswer = Inr \<lparr>RecommendedRefreshPeriod = 1, StatusNodes = []\<rparr>,
           nodesAnswer = Inr [zeroNode\<lparr>Hostname := ''b'', OTPNode := ''ns_1@b''\<rparr>]\<rparr>
        @ [\<lparr>statusAnswer = Inr \<lparr>RecommendedRefreshPeriod = 1, StatusNodes = []\<rparr>,
            nodesAnswer = Inr []\<rparr>])) = Some Done"
  by (simp add: eval_nat_numeral stillPresent_def stillActive_def consecutive_def
      nodeInRebalance_def nodeInCluster_def pollStep_def stripPort_takeWhile zeroNode_def
      minSleep_def Second_def Millisecond_def)

text \<open>
  C5, as amended. While the loop is still polling, every status poll it has made up to
  and including the next one has exactly one sleep directly before it, and the loop
  sleeps nowhere else. The sleep before the first poll is zero. The sleep before every
  later poll is what the status answer of the poll just before asks for: 500
  milliseconds when that status read failed, and else the recommended period converted
  to a duration, but no less than 2 seconds. Status reads that fail never end the loop:
  after any number of them in a row it is still polling, and it goes on with the next
  rounds after a sleep of 500 milliseconds and with its counter unchanged.
\<close>

theorem C5_sleep_between_polls:
  "(snd (pollLoop td ej 0 0 ps) = None \<longrightarrow>
      sleepBeforePolls (fst (pollLoop td ej 0 0 (ps @ [p])))
        = map Some (0 # map (recommendedSleep td) ps)
      \<and> sleeps (fst (pollLoop td ej 0 0 (ps @ [p]))) = 0 # map (recommendedSleep td) ps)
   \<and> (list_all (\<lambda>p. isl (statusAnswer p)) ps \<longrightarrow>
      snd (pollLoop td ej s c ps) = None
      \<and> (ps \<noteq> [] \<longrightarrow>
           pollLoop td ej s c (ps @ qs) =
             (fst (pollLoop td ej s c ps) @ fst (pollLoop td ej (500 * Millisecond) c qs),
              snd (pollLoop td ej (500 * Millisecond) c qs))))"
  using pollLoop_sleeps [of td ej 0 0 ps p] pollLoop_sleepBefore [of td ej 0 0 ps p]
    pollLoop_failed_polls [of ps td ej s c qs]
  by simp

theorem C5_witness:
  "sleepBeforePolls (fst (pollLoop (\<lambda>period :: int. period * Second) [''ns_1@b''] 0 0
     [\<lparr>statusAnswer = Inl (External ''timeout''), nodesAnswer = Inl (External ''unused'')\<rparr>,
      \<lparr>statusAnswer = Inr \<lparr>RecommendedRefreshPeriod = 1, StatusNodes = [''ns_1@b'']\<rparr>,
       nodesAnswer = Inl (External ''unused'')\<rparr>,
      \<lparr>statusAnswer = Inr \<lparr>RecommendedRefreshPeriod = 7, StatusNodes = [''ns_1@b'']\<rparr>,
       nodesAnswer = Inl (External ''unused'')\<rparr>,
      \<lparr>statusAnswer = Inr \<lparr>RecommendedRefreshPeriod = 1, StatusNodes = []\<rparr>,
       nodesAnswer = Inr []\<rparr>]))
   = [Some 0, Some 500000000, Some 2000000000, Some 7000000000]"
proof -
  let ?td = "\<lambda>period :: int. period * Second"
  let ?ps = "[\<lparr>statusAnswer = Inl (External ''timeout''), nodesAnswer = Inl (External ''unused'')\<rparr>,
      \<lparr>statusAnswer = Inr \<lparr>RecommendedRefreshPeriod = 1 :: int, StatusNodes = [''ns_1@b'']\<rparr>,
       nodesAnswer = Inl (External ''unused'')\<rparr>,
      \<lparr>statusAnswer = Inr \<lparr>RecommendedRefreshPeriod = 7, StatusNodes = [''ns_1@b'']\<rparr>,
       nodesAnswer = Inl (External ''unused'')\<rparr>]"
  let ?p = "\<lparr>statusAnswer = Inr \<lparr>RecommendedRefreshPeriod = 1 :: int, StatusNodes = []\<rparr>,
       nodesAnswer = Inr []\<rparr>"
  have polling: "snd (pollLoop ?td [''ns_1@b''] 0 0 ?ps) = None"
    by (simp add: nodeInRebalance_def pollStep_def stripPort_takeWhile Let_def
        minSleep_def Second_def Millisecond_def)
  from C5_sleep_between_polls [of ?td "[''ns_1@b'']" ?ps ?p] polling
  show ?thesis
    by (simp add: recommendedSleep_def Second_def Millisecond_def)
qed

text \<open>
  The first poll of a run comes after a sleep of zero, which is neither 2 seconds or
  more nor 500 milliseconds.
\<close>

theorem C5_counterexample:
  "fst (pollLoop (\<lambda>period :: int. period * Second) [''ns_1@b''] 0 0
     [\<lparr>statusAnswer = Inr \<lparr>RecommendedRefreshPeriod = 5, StatusNodes = [''ns_1@b'']\<rparr>,
       nodesAnswer = Inl (External ''unused'')\<rparr>])
   = [TimeSleep 0, CallRebalanceStatus]
   \<and> \<not> (2 * Second \<le> 0) \<and> 500 * Millisecond \<noteq> 0"
  by (simp add: nodeInRebalance_def pollStep_def stripPort_takeWhile Let_def
        minSleep_def Second_def Millisecond_def)

subsection \<open>Claims on the caches\<close>

text \<open>
  C8. Each of the two caches of a handle is filled at most once, by the first read that
  succeeds, and then kept.
  \<^item> On a filled cache, \<open>Info()\<close> returns the cached node, makes no remote read and leaves
    the handle as it is, and so does every \<open>Info()\<close> call in any later sequence of
    \<open>Info()\<close> and \<open>Cluster()\<close> calls; likewise \<open>Cluster()\<close> and the cluster cache.
  \<^item> On an empty self-node cache, a read that succeeds (the topology read succeeds and
    holds a node flagged \<open>ThisNode\<close>) returns the first flagged node and stores it, and
    every later \<open>Info()\<close> call returns that node without a read; any other read returns
    an error and leaves the handle unchanged, so that the next call reads again.
  \<^item> On an empty cluster cache, a read that succeeds (status 200, a readable body that
    decodes) returns the decoded value and stores it, and every later \<open>Cluster()\<close> call
    returns it without a read; any other read returns an error and leaves the handle
    unchanged.
\<close>

theorem C8_caches_filled_once:
  "(info c = Some n \<longrightarrow>
      Info c r = (Inr n, c, [])
      \<and> info (snd (handleCalls d c qs)) = Some n
      \<and> (\<forall>i < length qs. \<forall>a. qs ! i = AskInfo a \<longrightarrow>
            fst (handleCalls d c qs) ! i = (InfoReply (Inr n), [])))
   \<and> (cluster c = Some k \<longrightarrow>
      Cluster d c s = (Inr k, c, [])
      \<and> cluster (snd (handleCalls d c qs)) = Some k
      \<and> (\<forall>i < length qs. \<forall>a. qs ! i = AskCluster a \<longrightarrow>
            fst (handleCalls d c qs) ! i = (ClusterReply (Inr k), [])))
   \<and> (info c = None \<and> find ThisNode nodes = Some m \<longrightarrow>
      Info c (Inr nodes) = (Inr m, c\<lparr>info := Some m\<rparr>, [CallNodes])
      \<and> info (snd (handleCalls d c (AskInfo (Inr nodes) # qs))) = Some m
      \<and> (\<forall>i < length qs. \<forall>a. qs ! i = AskInfo a \<longrightarrow>
            fst (handleCalls d c (AskInfo (Inr nodes) # qs)) ! Suc i = (InfoReply (Inr m), [])))
   \<and> (info c = None \<and> \<not> (\<exists>ns self. r = Inr ns \<and> find ThisNode ns = Some self) \<longrightarrow>
      (\<exists>e. Info c r = (Inl e, c, [CallNodes])))
   \<and> (cluster c = None \<and> StatusCode resp = 200 \<and> Body resp = Inr body \<and> d body = Inr parsed \<longrightarrow>
      Cluster d c (Inr resp) = (Inr parsed, c\<lparr>cluster := Some parsed\<rparr>, [CallRequest ''GET'' ''/pools''])
      \<and> cluster (snd (handleCalls d c (AskCluster (Inr resp) # qs))) = Some parsed
      \<and> (\<forall>i < length qs. \<forall>a. qs ! i = AskCluster a \<longrightarrow>
            fst (handleCalls d c (AskCluster (Inr resp) # qs)) ! Suc i
              = (ClusterReply (Inr parsed), [])))
   \<and> (cluster c = None
       \<and> \<not> (\<exists>rs b p. s = Inr rs \<and> StatusCode rs = 200 \<and> Body rs = Inr b \<and> d b = Inr p) \<longrightarrow>
      (\<exists>e. Cluster d c s = (Inl e, c, [CallRequest ''GET'' ''/pools''])))"
proof -
  have cached_info: "info c = Some n \<longrightarrow>
      Info c r = (Inr n, c, [])
      \<and> info (snd (handleCalls d c qs)) = Some n
      \<and> (\<forall>i < length qs. \<forall>a. qs ! i = AskInfo a \<longrightarrow>
            fst (handleCalls d c qs) ! i = (InfoReply (Inr n), []))"
    using Info_cached [of c n r] handleCalls_info_cached [of c n d qs] by blast
  have cached_cluster: "cluster c = Some k \<longrightarrow>
      Cluster d c s = (Inr k, c, [])
      \<and> cluster (snd (handleCalls d c qs)) = Some k
      \<and> (\<forall>i < length qs. \<forall>a. qs ! i = AskCluster a \<longrightarrow>
            fst (handleCalls d c qs) ! i = (ClusterReply (Inr k), []))"
    using Cluster_cached [of c k d s] handleCalls_cluster_cached [of c k d qs] by blast
  have fill_info: "info c = None \<and> find ThisNode nodes = Some m \<longrightarrow>
      Info c (Inr nodes) = (Inr m, c\<lparr>info := Some m\<rparr>, [CallNodes])
      \<and> info (snd (handleCalls d c (AskInfo (Inr nodes) # qs))) = Some m
      \<and> (\<forall>i < length qs. \<forall>a. qs ! i = AskInfo a \<longrightarrow>
            fst (handleCalls d c (AskInfo (Inr nodes) # qs)) ! Suc i = (InfoReply (Inr m), []))"
    using Info_fills [of c nodes m] handleCalls_info_filled [of c nodes m d qs] by blast
  have fail_info: "info c = None \<and> \<not> (\<exists>ns self. r = Inr ns \<and> find ThisNode ns = Some self) \<longrightarrow>
      (\<exists>e. Info c r = (Inl e, c, [CallNodes]))"
    using Info_fails [of c r] by blast
  have fill_cluster: "cluster c = None \<and> StatusCode resp = 200 \<and> Body resp = Inr body
        \<and> d body = Inr parsed \<longrightarrow>
      Cluster d c (Inr resp) = (Inr parsed, c\<lparr>cluster := Some parsed\<rparr>, [CallRequest ''GET'' ''/pools''])
      \<and> cluster (snd (handleCalls d c (AskCluster (Inr resp) # qs))) = Some parsed
      \<and> (\<forall>i < length qs. \<forall>a. qs ! i = AskCluster a \<longrightarrow>
            fst (handleCalls d c (AskCluster (Inr resp) # qs)) ! Suc i
              = (ClusterReply (Inr parsed), []))"
    using Cluster_fills [of c resp body d parsed]
      handleCalls_cluster_filled [of c resp body d parsed qs] by blast
  have fail_cluster: "cluster c = None
       \<and> \<not> (\<exists>rs b p. s = Inr rs \<and> StatusCode rs = 200 \<and> Body rs = Inr b \<and> d b = Inr p) \<longrightarrow>
      (\<exists>e. Cluster d c s = (Inl e, c, [CallRequest ''GET'' ''/pools'']))"
    using Cluster_fails [of c s d] by blast
  show ?thesis
    by (rule conjI [OF cached_info conjI [OF cached_cluster conjI [OF fill_info
          conjI [OF fail_info conjI [OF fill_cluster fail_cluster]]]]])
qed

theorem C8_witness:
  "Info \<lparr>URL = ''http://a:8091'', Username = ''u'', Password = ''p'', info = None, cluster = None\<rparr>
     (Inr [zeroNode\<lparr>Hostname := ''b''\<rparr>, zeroNode\<lparr>Hostname := ''a'', ThisNode := True\<rparr>])
   = (Inr (zeroNode\<lparr>Hostname := ''a'', ThisNode := True\<rparr>),
      \<lparr>URL = ''http://a:8091'', Username = ''u'', Password = ''p'',
       info = Some (zeroNode\<lparr>Hostname := ''a'', ThisNode := True\<rparr>), cluster = None\<rparr>,
      [CallNodes])
   \<and> fst (handleCalls (\<lambda>body. Inl (External ''not JSON''))
        \<lparr>URL = ''http://a:8091'', Username = ''u'', Password = ''p'', info = None, cluster = None\<rparr>
        [AskInfo (Inr [zeroNode\<lparr>Hostname := ''b''\<rparr>, zeroNode\<lparr>Hostname := ''a'', ThisNode := True\<rparr>]),
         AskInfo (Inl (External ''connection refused''))]) ! 1
     = (InfoReply (Inr (zeroNode\<lparr>Hostname := ''a'', ThisNode := True\<rparr>)), [])
   \<and> (\<exists>e. Info \<lparr>URL = ''http://a:8091'', Username = ''u'', Password = ''p'', info = None, cluster = None\<rparr>
          (Inl (External ''connection refused''))
        = (Inl e, \<lparr>URL = ''http://a:8091'', Username = ''u'', Password = ''p'', info = None, cluster = None\<rparr>,
           [CallNodes]))"
proof -
  let ?c = "\<lparr>URL = ''http://a:8091'', Username = ''u'', Password = ''p'', info = None, cluster = None\<rparr>"
  let ?self = "zeroNode\<lparr>Hostname := ''a'', ThisNode := True\<rparr>"
  let ?nodes = "[zeroNode\<lparr>Hostname := ''b''\<rparr>, ?self]"
  let ?d = "\<lambda>body :: string. Inl (External ''not JSON'') :: error + Cluster"
  let ?down = "Inl (External ''connection refused'') :: error + Node list"
  have empty: "info ?c = None" by simp
  have self: "find ThisNode ?nodes = Some ?self" by (simp add: zeroNode_def)
  have down: "\<not> (\<exists>ns self. ?down = Inr ns \<and> find ThisNode ns = Some self)" by simp
  have later: "[AskInfo ?down] ! 0 = AskInfo ?down" "0 < length [AskInfo ?down]" by simp_all
  note C8 = C8_caches_filled_once [where c = ?c and nodes = ?nodes and m = ?self and d = ?d
      and qs = "[AskInfo ?down]" and r = ?down]
  from C8 empty self have fill: "Info ?c (Inr ?nodes) = (Inr ?self, ?c\<lparr>info := Some ?self\<rparr>, [CallNodes])"
    by blast
  from C8 empty self later have cached:
    "fst (handleCalls ?d ?c (AskInfo (Inr ?nodes) # [AskInfo ?down])) ! Suc 0
       = (InfoReply (Inr ?self), [])"
    by blast
  from C8 empty down have fail: "\<exists>e. Info ?c ?down = (Inl e, ?c, [CallNodes])"
    by blast
  from fill cached fail show ?thesis by simp
qed

subsection \<open>Claims on waiting\<close>

text \<open>
  C3. The claim is that \<open>IsReady\<close> and \<open>Healthy\<close> return their timeout error exactly when
  the timeout has elapsed. The source arms the timer anew in every round of its loop.
  With a timeout of five seconds and probes that fail at once, the tick of each round
  comes four seconds before the timer of that round: after any number \<open>n\<close> of probes,
  at \<open>n\<close> seconds, neither function has returned.
\<close>

theorem C3_timeout_never_fires:
  "IsReady rawURL (5 * Second) tie
     (replicate n \<lparr>took = 0, answer = Inl (External ''connection refused'')\<rparr>)
     = RunningAt (int n * Second)
   \<and> Healthy c (5 * Second) tie
     (replicate n \<lparr>took = 0, answer = Inl (External ''connection refused'')\<rparr>)
     = RunningAt (int n * Second)"
  using selectLoop_failing_probes
      [of "\<lambda>sent. Ping sent = None" "Inl (External ''connection refused'')" tie 0 n]
    selectLoop_failing_probes
      [of "\<lambda>nodesRead. healthy nodesRead = None" "Inl (External ''connection refused'')" tie 0 n]
  by (simp add: IsReady_def Healthy_def Ping_def healthy_def)

theorem C3_witness:
  "IsReady ''http://a:8091'' (5 * Second) True
     (replicate 6 \<lparr>took = 0, answer = Inl (External ''connection refused'')\<rparr>)
     = RunningAt (6 * Second)"
  using C3_timeout_never_fires [of "''http://a:8091''" True 6] by simp

end
